theory Spec2Isabelle
  imports Complex_Main "HOL-Library.Multiset"
begin

section \<open>Values of the host language\<close>

text \<open>
  Time values are integers (milliseconds since the epoch); one that may be \<open>NaN\<close> is
  an option, \<open>None\<close> for \<open>NaN\<close>. The amounts of stored splits are rationals (every
  finite double is one).
\<close>

type_synonym 'a js_number = "'a option"

definition js_minus :: "int js_number \<Rightarrow> int js_number \<Rightarrow> int js_number" where
  "js_minus x y = (case x of None \<Rightarrow> None | Some a \<Rightarrow> (case y of None \<Rightarrow> None | Some b \<Rightarrow> Some (a - b)))"

subsection \<open>Double arithmetic\<close>

text \<open>
  The numbers of the transaction form are doubles: \<open>NaN\<close>, the two infinities, and
  the finite values, each its exact rational. Negative zero is not told from zero (the
  two compare equal and both are falsy). A result is rounded to the nearest double,
  ties to the even significand: 53 bits \<open>m\<close>, the exponent \<open>e\<close> of the last bit not
  below -1074, and infinity when the rounded value \<open>m * 2^e\<close> reaches \<open>2^1024\<close>.
\<close>

datatype jsnum = NaN | PosInf | NegInf | Num rat

function bit_length :: "int \<Rightarrow> int" where
  "bit_length n = (if n \<le> 0 then 0 else 1 + bit_length (n div 2))"
  by pat_completeness auto
termination
  by (relation "measure nat") auto

definition pow2 :: "int \<Rightarrow> rat" where
  "pow2 e = (if 0 \<le> e then 2 ^ nat e else 1 / 2 ^ nat (- e))"

text \<open>The exponent of the leading bit of a positive rational.\<close>

definition floor_log2 :: "rat \<Rightarrow> int" where
  "floor_log2 a =
     (let k = bit_length (fst (quotient_of a)) - bit_length (snd (quotient_of a))
      in if pow2 k \<le> a then k else k - 1)"

definition round_half_even :: "rat \<Rightarrow> int" where
  "round_half_even x =
     (let f = \<lfloor>x\<rfloor>; d = x - of_int f
      in if d < 1 / 2 then f else if 1 / 2 < d then f + 1 else if even f then f else f + 1)"

definition to_double :: "rat \<Rightarrow> jsnum" where
  "to_double x =
     (if x = 0 then Num 0
      else (let a = \<bar>x\<bar>;
                e = max (floor_log2 a - 52) (- 1074);
                m = round_half_even (a / pow2 e)
            in if 971 < e \<or> (e = 971 \<and> 2 ^ 53 \<le> m) then (if 0 < x then PosInf else NegInf)
               else Num (if 0 < x then of_int m * pow2 e else - (of_int m * pow2 e))))"

fun js_add :: "jsnum \<Rightarrow> jsnum \<Rightarrow> jsnum" where
  "js_add NaN _ = NaN"
| "js_add _ NaN = NaN"
| "js_add PosInf NegInf = NaN"
| "js_add NegInf PosInf = NaN"
| "js_add PosInf _ = PosInf"
| "js_add _ PosInf = PosInf"
| "js_add NegInf _ = NegInf"
| "js_add _ NegInf = NegInf"
| "js_add (Num a) (Num b) = to_double (a + b)"

fun js_neg :: "jsnum \<Rightarrow> jsnum" where
  "js_neg NaN = NaN"
| "js_neg PosInf = NegInf"
| "js_neg NegInf = PosInf"
| "js_neg (Num a) = Num (- a)"

definition js_sub :: "jsnum \<Rightarrow> jsnum \<Rightarrow> jsnum" where
  "js_sub x y = js_add x (js_neg y)"

fun js_abs :: "jsnum \<Rightarrow> jsnum" where
  "js_abs NaN = NaN"
| "js_abs PosInf = PosInf"
| "js_abs NegInf = PosInf"
| "js_abs (Num a) = Num \<bar>a\<bar>"

text \<open>\<open>x < y\<close>: false when either is \<open>NaN\<close>.\<close>

fun js_less :: "jsnum \<Rightarrow> jsnum \<Rightarrow> bool" where
  "js_less NaN _ = False"
| "js_less _ NaN = False"
| "js_less PosInf _ = False"
| "js_less _ NegInf = False"
| "js_less NegInf _ = True"
| "js_less _ PosInf = True"
| "js_less (Num a) (Num b) = (a < b)"

text \<open>\<open>x || 0\<close> on a number: \<open>NaN\<close> and zero are falsy.\<close>

definition falsy :: "jsnum \<Rightarrow> bool" where
  "falsy x = (x = NaN \<or> x = Num 0)"

definition or_zero :: "jsnum \<Rightarrow> jsnum" where
  "or_zero x = (if falsy x then Num 0 else x)"

text \<open>\<open>x > 0\<close>.\<close>

definition js_pos :: "jsnum \<Rightarrow> bool" where
  "js_pos x = js_less (Num 0) x"

subsection \<open>Strings\<close>

text \<open>
  A string is a list of code units below 256, each character its code point (ASCII
  and Latin-1). On these \<open>trim\<close> strips tab, line feed, vertical tab, form feed,
  carriage return, space and the no-break space, and \<open>toLowerCase\<close> maps the letters
  \<open>A\<close> to \<open>Z\<close> and the accented capitals 192 to 222 (but not the multiplication
  sign 215) to the letter 32 further on. Text with code units from 256 on is outside
  the model.
\<close>

definition isWhitespace :: "char \<Rightarrow> bool" where
  "isWhitespace c = (of_char c \<in> {9::nat, 10, 11, 12, 13, 32, 160})"

definition trim :: "string \<Rightarrow> string" where
  "trim s = rev (dropWhile isWhitespace (rev (dropWhile isWhitespace s)))"

definition lower_char :: "char \<Rightarrow> char" where
  "lower_char c =
     (if (65 \<le> (of_char c :: nat) \<and> (of_char c :: nat) \<le> 90)
         \<or> (192 \<le> (of_char c :: nat) \<and> (of_char c :: nat) \<le> 222 \<and> (of_char c :: nat) \<noteq> 215)
      then char_of (of_char c + (32::nat)) else c)"

definition toLowerCase :: "string \<Rightarrow> string" where
  "toLowerCase s = map lower_char s"

definition isDigit :: "char \<Rightarrow> bool" where
  "isDigit c = (48 \<le> (of_char c :: nat) \<and> (of_char c :: nat) \<le> 57)"

definition digit_value :: "char \<Rightarrow> int" where
  "digit_value c = of_char c - 48"

definition digits_value :: "string \<Rightarrow> int" where
  "digits_value ds = foldl (\<lambda>acc c. 10 * acc + digit_value c) 0 ds"

text \<open>
  \<open>parseInt(s, 10)\<close>: leading white space is skipped, a sign is read, then the longest
  run of decimal digits; no digit gives \<open>NaN\<close>. An absent value (\<open>undefined\<close>) gives
  \<open>NaN\<close> as well. The value is the exact integer, which is the engine's double up to
  \<open>2^53\<close>.
\<close>

definition parseInt_str :: "string \<Rightarrow> int js_number" where
  "parseInt_str s =
     (let t = dropWhile isWhitespace s;
          neg = (case t of [] \<Rightarrow> False | c # _ \<Rightarrow> c = CHR ''-'');
          u = (case t of [] \<Rightarrow> [] | c # r \<Rightarrow> if c = CHR ''-'' \<or> c = CHR ''+'' then r else t);
          ds = takeWhile isDigit u
      in if ds = [] then None
         else Some (if neg then - digits_value ds else digits_value ds))"

definition parseInt :: "string option \<Rightarrow> int js_number" where
  "parseInt v = (case v of None \<Rightarrow> None | Some s \<Rightarrow> parseInt_str s)"

text \<open>\<open>n.toString()\<close> for an integer: its decimal digits, after the sign.\<close>

function toString_int :: "int \<Rightarrow> string" where
  "toString_int n =
     (if n < 0 then CHR ''-'' # toString_int (- n)
      else if n < 10 then [char_of (48 + n)]
      else toString_int (n div 10) @ [char_of (48 + n mod 10)])"
  by pat_completeness auto
termination
  by (relation "measure (\<lambda>n. if n < 0 then Suc (nat (- n)) else nat n)") auto

subsection \<open>Dates\<close>

text \<open>
  \<open>Date.parse\<close> (and \<open>new Date(s).getTime()\<close>) on the stored format \<open>YYYY-MM-DD\<close>:
  midnight UTC of that day, in milliseconds. Any other string, and a month or a day
  out of range, is \<open>NaN\<close> here; an engine may read more (V8 also reads date-time
  strings and counts a day up to 31 on into the next month).
\<close>

definition msPerDay :: int where
  "msPerDay = 86400000"

definition isLeapYear :: "int \<Rightarrow> bool" where
  "isLeapYear y = (y mod 4 = 0 \<and> (y mod 100 \<noteq> 0 \<or> y mod 400 = 0))"

definition dayFromYear :: "int \<Rightarrow> int" where
  "dayFromYear y = 365 * (y - 1970) + (y - 1969) div 4 - (y - 1901) div 100 + (y - 1601) div 400"

definition daysInMonth :: "int \<Rightarrow> nat \<Rightarrow> int" where
  "daysInMonth y m =
     (if m = 2 then (if isLeapYear y then 29 else 28)
      else if m \<in> {4, 6, 9, 11} then 30 else 31)"

definition daysBeforeMonth :: "int \<Rightarrow> nat \<Rightarrow> int" where
  "daysBeforeMonth y m = sum_list (map (daysInMonth y) [1..<m])"

definition Date_parse :: "string \<Rightarrow> int js_number" where
  "Date_parse s =
     (case s of
        [y1, y2, y3, y4, s1, m1, m2, s2, d1, d2] \<Rightarrow>
          (if list_all isDigit [y1, y2, y3, y4, m1, m2, d1, d2] \<and> s1 = CHR ''-'' \<and> s2 = CHR ''-''
           then (let y = digits_value [y1, y2, y3, y4];
                     m = nat (digits_value [m1, m2]);
                     d = digits_value [d1, d2]
                 in if 1 \<le> m \<and> m \<le> 12 \<and> 1 \<le> d \<and> d \<le> daysInMonth y m
                    then Some ((dayFromYear y + daysBeforeMonth y m + d - 1) * msPerDay)
                    else None)
           else None)
      | _ \<Rightarrow> None)"

section \<open>Data model\<close>

text \<open>
  \<open>Expense\<close> is one stored split. In a legacy document \<open>transactionId\<close> can be
  absent; \<open>notes\<close> is optional.
\<close>

record expense =
  eid :: string
  transactionId :: "string option"
  amount :: rat
  vendor :: string
  category :: string
  date :: string
  "notes" :: "string option"

record category_def =
  name :: string
  color :: string
  isDefault :: bool

record custom_category =
  cc_name :: string
  cc_color :: string

record currency =
  code :: "string option"
  cname :: string
  symbol :: string

record app_state =
  expenses :: "expense list"
  categories :: "category_def list"
  currency :: currency

datatype error = ValidationError | ImmutableEntryError | FormatError | TypeError

text \<open>A JavaScript string is truthy when it is present and not empty.\<close>

definition truthy :: "string option \<Rightarrow> bool" where
  "truthy v = (case v of None \<Rightarrow> False | Some s \<Rightarrow> s \<noteq> [])"

section \<open>The ledger (App)\<close>

text \<open>
  \<open>Array.prototype.sort\<close> with a comparison function: a stable sort; a comparison
  result of \<open>NaN\<close> counts as \<open>0\<close>. The model is the stable insertion sort, which is
  what every conforming sort returns when the comparison function is consistent.
\<close>

definition cmp_le :: "('a \<Rightarrow> 'a \<Rightarrow> int js_number) \<Rightarrow> 'a \<Rightarrow> 'a \<Rightarrow> bool" where
  "cmp_le cmp a b = (case cmp a b of None \<Rightarrow> True | Some v \<Rightarrow> v \<le> 0)"

fun insert_by :: "('a \<Rightarrow> 'a \<Rightarrow> int js_number) \<Rightarrow> 'a \<Rightarrow> 'a list \<Rightarrow> 'a list" where
  "insert_by cmp x [] = [x]"
| "insert_by cmp x (y # ys) = (if cmp_le cmp x y then x # y # ys else y # insert_by cmp x ys)"

fun array_sort :: "('a \<Rightarrow> 'a \<Rightarrow> int js_number) \<Rightarrow> 'a list \<Rightarrow> 'a list" where
  "array_sort cmp [] = []"
| "array_sort cmp (x # xs) = insert_by cmp x (array_sort cmp xs)"

definition compareExpenses :: "expense \<Rightarrow> expense \<Rightarrow> int js_number" where
  "compareExpenses a b =
     (let dateComparison = js_minus (Date_parse (date b)) (Date_parse (date a))
      in if dateComparison \<noteq> Some 0 then dateComparison
         else js_minus (parseInt (transactionId b)) (parseInt (transactionId a)))"

definition sortExpenses :: "expense list \<Rightarrow> expense list" where
  "sortExpenses xs = array_sort compareExpenses xs"

text \<open>
  A transaction as the form hands it over: shared vendor, date and notes, and one
  amount and category per split.
\<close>

record split =
  s_amount :: rat
  s_category :: string

record transaction =
  t_vendor :: string
  t_date :: string
  t_notes :: "string option"
  t_splits :: "split list"

text \<open>
  One stored split per input split. \<open>tid\<close> is the transaction id (a template
  literal prints an absent one as \<open>undefined\<close>); \<open>rnd i\<close> is the random suffix
  drawn for the \<open>i\<close>-th split.
\<close>

definition template_str :: "string option \<Rightarrow> string" where
  "template_str v = (case v of None \<Rightarrow> ''undefined'' | Some s \<Rightarrow> s)"

definition buildExpenses :: "string option \<Rightarrow> (nat \<Rightarrow> string) \<Rightarrow> transaction \<Rightarrow> expense list" where
  "buildExpenses tid rnd t =
     map (\<lambda>(i, sp). \<lparr> eid = template_str tid @ ''-'' @ rnd i,
                       transactionId = tid,
                       amount = s_amount sp,
                       vendor = t_vendor t,
                       category = s_category sp,
                       date = t_date t,
                       notes = t_notes t \<rparr>)
         (enumerate 0 (t_splits t))"

text \<open>\<open>addTransaction\<close>: \<open>now\<close> is the value of \<open>Date.now()\<close>.\<close>

definition addTransaction :: "int \<Rightarrow> (nat \<Rightarrow> string) \<Rightarrow> transaction \<Rightarrow> app_state \<Rightarrow> app_state" where
  "addTransaction now rnd t st =
     (let newTransactionId = toString_int now;
          newExpenses = buildExpenses (Some newTransactionId) rnd t
      in st\<lparr> expenses := sortExpenses (newExpenses @ expenses st) \<rparr>)"

definition deleteTransaction :: "string \<Rightarrow> app_state \<Rightarrow> app_state" where
  "deleteTransaction tid st =
     st\<lparr> expenses := filter (\<lambda>expense. transactionId expense \<noteq> Some tid) (expenses st) \<rparr>"

text \<open>
  \<open>updateTransaction\<close>: the id is read from the first split being edited, so it is
  absent when that split has none.
\<close>

definition updateTransaction :: "string option \<Rightarrow> (nat \<Rightarrow> string) \<Rightarrow> transaction \<Rightarrow> app_state \<Rightarrow> app_state" where
  "updateTransaction tid rnd t st =
     (let updatedExpenses = buildExpenses tid rnd t
      in st\<lparr> expenses :=
               sortExpenses (filter (\<lambda>e. transactionId e \<noteq> tid) (expenses st) @ updatedExpenses) \<rparr>)"

text \<open>
  The one-time migration at start-up, as far as it concerns the expenses: splits
  without a transaction id get their own id as one, and the ledger is sorted.
\<close>

definition migrateExpenses :: "expense list \<Rightarrow> expense list" where
  "migrateExpenses es =
     map (\<lambda>e. if truthy (transactionId e) then e else e\<lparr> transactionId := Some (eid e) \<rparr>) es"

definition initExpenses :: "app_state \<Rightarrow> app_state" where
  "initExpenses st =
     (let expensesNeedProcessing = list_ex (\<lambda>e. \<not> truthy (transactionId e)) (expenses st)
      in if expensesNeedProcessing
         then st\<lparr> expenses := sortExpenses (migrateExpenses (expenses st)) \<rparr>
         else st)"

section \<open>The transaction form (AddExpense)\<close>

text \<open>
  The form keeps its amounts as text; the model keeps the double that \<open>parseFloat\<close>
  reads from each field (\<open>NaN\<close> when it reads no number).
\<close>

record form_split =
  fs_amount :: jsnum
  fs_category :: string

record form =
  totalAmount :: jsnum
  f_vendor :: string
  f_date :: string
  f_notes :: string
  splits :: "form_split list"

definition parsedTotal :: "form \<Rightarrow> jsnum" where
  "parsedTotal f = or_zero (totalAmount f)"

definition allocated :: "form \<Rightarrow> jsnum" where
  "allocated f = foldl (\<lambda>sum s. js_add sum (or_zero (fs_amount s))) (Num 0) (splits f)"

definition remainingAmount :: "form \<Rightarrow> jsnum" where
  "remainingAmount f = js_sub (parsedTotal f) (allocated f)"

definition allSplitsValid :: "form \<Rightarrow> bool" where
  "allSplitsValid f = list_all (\<lambda>s. js_pos (fs_amount s) \<and> fs_category s \<noteq> []) (splits f)"

text \<open>The literal \<open>0.01\<close> is the double nearest to one hundredth.\<close>

definition isAmountCorrect :: "form \<Rightarrow> bool" where
  "isAmountCorrect f = js_less (js_abs (remainingAmount f)) (to_double (1 / 100))"

definition isValid :: "form \<Rightarrow> bool" where
  "isValid f = (js_pos (parsedTotal f) \<and> trim (f_vendor f) \<noteq> [] \<and> allSplitsValid f \<and> isAmountCorrect f)"

text \<open>
  \<open>finalSplits\<close> of \<open>handleSubmit\<close>: the amount of a split is the double read from
  its field. It is built only from a valid form, where every amount is a finite
  positive number, so the other values of a field never get here.
\<close>

definition amount_of :: "jsnum \<Rightarrow> rat" where
  "amount_of x = (case x of Num r \<Rightarrow> r | _ \<Rightarrow> 0)"

definition finalSplits :: "form \<Rightarrow> split list" where
  "finalSplits f = map (\<lambda>s. \<lparr> s_amount = amount_of (fs_amount s), s_category = fs_category s \<rparr>) (splits f)"

definition formTransaction :: "form \<Rightarrow> transaction" where
  "formTransaction f =
     \<lparr> t_vendor = trim (f_vendor f), t_date = f_date f,
       t_notes = Some (trim (f_notes f)), t_splits = finalSplits f \<rparr>"

text \<open>
  \<open>handleSubmit\<close>: an invalid form returns at once; in edit mode (\<open>transactionToEdit\<close>
  is set) the transaction of its first split is replaced, and reading that split from
  an empty list throws.
\<close>

definition handleSubmit ::
  "form \<Rightarrow> expense list option \<Rightarrow> int \<Rightarrow> (nat \<Rightarrow> string) \<Rightarrow> app_state \<Rightarrow> error option \<times> app_state" where
  "handleSubmit f transactionToEdit now rnd st =
     (if \<not> isValid f then (None, st)
      else (case transactionToEdit of
              Some [] \<Rightarrow> (Some TypeError, st)
            | Some (e0 # _) \<Rightarrow> (None, updateTransaction (transactionId e0) rnd (formTransaction f) st)
            | None \<Rightarrow> (None, addTransaction now rnd (formTransaction f) st)))"

section \<open>Categories (CategoryManager)\<close>

definition validateName :: "string list \<Rightarrow> string \<Rightarrow> string option \<Rightarrow> error option" where
  "validateName allCategoryNames nm originalName =
     (let trimmedName = trim nm
      in if trimmedName = [] then Some ValidationError
         else if list_ex (\<lambda>catName. toLowerCase catName = toLowerCase trimmedName \<and>
                                      Some (toLowerCase catName) \<noteq> map_option toLowerCase originalName)
                         allCategoryNames
         then Some ValidationError
         else None)"

text \<open>
  \<open>handleSave\<close>: \<open>fname\<close> and \<open>fcolor\<close> are the form's name and colour,
  \<open>editingCatName\<close> the category being renamed.
\<close>

definition handleSave ::
  "bool \<Rightarrow> string option \<Rightarrow> string \<Rightarrow> string \<Rightarrow> app_state \<Rightarrow> error option \<times> app_state" where
  "handleSave isAdding editingCatName fname fcolor st =
     (case validateName (map name (categories st)) fname editingCatName of
        Some err \<Rightarrow> (Some err, st)
      | None \<Rightarrow>
          (let trimmedName = trim fname
           in if isAdding
              then (None, st\<lparr> categories :=
                      categories st @ [\<lparr> name = trimmedName, color = fcolor, isDefault = False \<rparr>] \<rparr>)
              else if truthy editingCatName
              then (let st1 =
                      (if map_option toLowerCase editingCatName \<noteq> Some (toLowerCase trimmedName)
                       then st\<lparr> expenses :=
                              map (\<lambda>exp. if Some (category exp) = editingCatName
                                         then exp\<lparr> category := trimmedName \<rparr> else exp)
                                  (expenses st) \<rparr>
                       else st)
                    in (None, st1\<lparr> categories :=
                          map (\<lambda>cat. if Some (name cat) = editingCatName
                                     then cat\<lparr> name := trimmedName, color := fcolor \<rparr> else cat)
                              (categories st1) \<rparr>))
              else (None, st)))"

text \<open>\<open>handleDelete\<close>: \<open>confirmed\<close> is the answer to the confirmation dialog.\<close>

definition handleDelete :: "string \<Rightarrow> bool \<Rightarrow> app_state \<Rightarrow> app_state" where
  "handleDelete nm confirmed st =
     (if confirmed
      then st\<lparr> expenses :=
                 map (\<lambda>exp. if category exp = nm then exp\<lparr> category := ''Other'' \<rparr> else exp)
                     (expenses st),
               categories := filter (\<lambda>cat. name cat \<noteq> nm) (categories st) \<rparr>
      else st)"

text \<open>
  \<open>renderCategoryItem\<close> renders the delete control of an item, which calls
  \<open>handleDelete\<close> with the item's name, when the category is not default and is not
  named \<open>Other\<close>.
\<close>

definition hasDeleteButton :: "category_def \<Rightarrow> bool" where
  "hasDeleteButton c = (\<not> isDefault c \<and> name c \<noteq> ''Other'')"

section \<open>Backup and restore (Settings)\<close>

definition CATEGORIES :: "string list" where
  "CATEGORIES = [''Food'', ''Transport'', ''Shopping'', ''Utilities'', ''Entertainment'', ''Health'', ''Other'']"

definition CATEGORY_COLORS :: "string \<Rightarrow> string" where
  "CATEGORY_COLORS nm =
     (if nm = ''Food'' then ''#34D399''
      else if nm = ''Transport'' then ''#60A5FA''
      else if nm = ''Shopping'' then ''#F472B6''
      else if nm = ''Utilities'' then ''#FBBF24''
      else if nm = ''Entertainment'' then ''#A78BFA''
      else if nm = ''Health'' then ''#F87171''
      else ''#9CA3AF'')"

text \<open>
  The parsed backup file. A field that is absent, or not of the shape the code tests
  for (\<open>expenses\<close> not an array), is \<open>None\<close>.
\<close>

record backup_doc =
  d_version :: "int option"
  d_expenses :: "expense list option"
  d_currency :: "currency option"
  d_categories :: "category_def list option"
  d_customCategories :: "custom_category list option"

definition currency_code :: "backup_doc \<Rightarrow> string option" where
  "currency_code d = (case d_currency d of None \<Rightarrow> None | Some c \<Rightarrow> code c)"

text \<open>The upgrade of a backup older than version 3.\<close>

definition upgradeExpenses :: "expense list \<Rightarrow> expense list" where
  "upgradeExpenses es =
     map (\<lambda>exp. exp\<lparr> transactionId :=
                        (if truthy (transactionId exp) then transactionId exp else Some (eid exp)) \<rparr>) es"

definition needsUpgrade :: "int option \<Rightarrow> bool" where
  "needsUpgrade v = (case v of None \<Rightarrow> True | Some n \<Rightarrow> n = 0 \<or> n < 3)"

definition restoredCategories :: "backup_doc \<Rightarrow> category_def list \<Rightarrow> category_def list" where
  "restoredCategories d current =
     (case d_categories d of
        Some cs \<Rightarrow> cs
      | None \<Rightarrow>
          (case d_customCategories d of
             Some ccs \<Rightarrow>
               (let defaults = map (\<lambda>nm. \<lparr> name = nm, color = CATEGORY_COLORS nm, isDefault = True \<rparr>) CATEGORIES;
                    defaultNames = set (map name defaults);
                    newCustom = map (\<lambda>c. \<lparr> name = cc_name c, color = cc_color c, isDefault = False \<rparr>)
                                    (filter (\<lambda>c. cc_name c \<notin> defaultNames) ccs)
                in defaults @ newCustom)
           | None \<Rightarrow> current))"

text \<open>
  \<open>handleFileSelect\<close>, from the parsed document on (\<open>None\<close>: the file holds \<open>null\<close>);
  \<open>confirmed\<close> is the answer to the confirmation dialog. The format check throws
  before any setter is called.
\<close>

definition handleFileSelect :: "bool \<Rightarrow> backup_doc option \<Rightarrow> app_state \<Rightarrow> error option \<times> app_state" where
  "handleFileSelect confirmed parsedData st =
     (case parsedData of
        None \<Rightarrow> (Some FormatError, st)
      | Some d \<Rightarrow>
          (case d_expenses d of
             None \<Rightarrow> (Some FormatError, st)
           | Some es \<Rightarrow>
               (case d_currency d of
                  None \<Rightarrow> (Some FormatError, st)
                | Some cur \<Rightarrow>
                    if truthy (code cur)
                    then (if confirmed
                          then (let expensesToRestore = (if needsUpgrade (d_version d) then upgradeExpenses es else es)
                                in (None, st\<lparr> expenses := expensesToRestore,
                                             currency := cur,
                                             categories := restoredCategories d (categories st) \<rparr>))
                          else (None, st))
                    else (Some FormatError, st))))"

section \<open>Aggregation (Dashboard)\<close>

text \<open>
  \<open>Date.UTC(year, month, day)\<close> of the UTC year, month and day of \<open>now\<close> is the
  midnight that begins the UTC day of \<open>now\<close>.
\<close>

definition startOfTodayUTC :: "int \<Rightarrow> int" where
  "startOfTodayUTC now = (now div msPerDay) * msPerDay"

text \<open>
  The loop over the ledger, for the accumulator \<open>todaySpend\<close>. The amounts are added
  exactly.
\<close>

definition todaySpend :: "expense list \<Rightarrow> int \<Rightarrow> rat" where
  "todaySpend es now =
     foldl (\<lambda>acc expense.
              (case Date_parse (date expense) of
                 None \<Rightarrow> acc
               | Some expenseTimeUTC \<Rightarrow>
                   if expenseTimeUTC \<ge> startOfTodayUTC now then acc + amount expense else acc))
           0 es"

section \<open>Properties of the specification\<close>

text \<open>
  The order of the ledger in the specification's words: by date descending, ties
  broken by the transaction id read as a number, descending. It speaks of splits whose
  date and transaction id can be read.
\<close>

definition readable :: "expense \<Rightarrow> bool" where
  "readable e = (Date_parse (date e) \<noteq> None \<and> parseInt (transactionId e) \<noteq> None)"

definition precedes :: "expense \<Rightarrow> expense \<Rightarrow> bool" where
  "precedes a b =
     (case Date_parse (date a) of None \<Rightarrow> False | Some ta \<Rightarrow>
      case Date_parse (date b) of None \<Rightarrow> False | Some tb \<Rightarrow>
      case parseInt (transactionId a) of None \<Rightarrow> False | Some pa \<Rightarrow>
      case parseInt (transactionId b) of None \<Rightarrow> False | Some pb \<Rightarrow>
        tb < ta \<or> (ta = tb \<and> pb \<le> pa))"

definition ledger_ordered :: "expense list \<Rightarrow> bool" where
  "ledger_ordered es = sorted_wrt precedes es"

text \<open>Splits of one transaction agree on vendor, date and notes.\<close>

definition agree :: "expense \<Rightarrow> expense \<Rightarrow> bool" where
  "agree a b = (if transactionId a = transactionId b
                then vendor a = vendor b \<and> date a = date b \<and> notes a = notes b
                else True)"

definition txn_consistent :: "expense list \<Rightarrow> bool" where
  "txn_consistent es = list_all (\<lambda>a. list_all (agree a) es) es"

text \<open>
  Today's spend in the specification's words: the amounts of the splits dated on
  the UTC calendar day of \<open>now\<close>.
\<close>

definition sameUTCDay :: "int \<Rightarrow> expense \<Rightarrow> bool" where
  "sameUTCDay now e =
     (case Date_parse (date e) of None \<Rightarrow> False | Some t \<Rightarrow> t div msPerDay = now div msPerDay)"

definition todaySpend_spec :: "expense list \<Rightarrow> int \<Rightarrow> rat" where
  "todaySpend_spec es now = sum_list (map amount (filter (sameUTCDay now) es))"

text \<open>A number that is not \<open>NaN\<close> and not below zero.\<close>

definition nonneg :: "jsnum \<Rightarrow> bool" where
  "nonneg x = (x = PosInf \<or> (\<exists>r. x = Num r \<and> 0 \<le> r))"

text \<open>The sum of a list of numbers as the doubles add up, left to right from zero.\<close>

definition js_sum :: "jsnum list \<Rightarrow> jsnum" where
  "js_sum xs = foldl js_add (Num 0) xs"

text \<open>A document that the restore refuses: no document, no list of expenses, or no currency code.\<close>

definition invalid_doc :: "backup_doc option \<Rightarrow> bool" where
  "invalid_doc parsedData =
     (case parsedData of None \<Rightarrow> True
      | Some d \<Rightarrow> d_expenses d = None \<or> \<not> truthy (currency_code d))"

section \<open>Example data\<close>

definition form_ok :: form where
  "form_ok =
     \<lparr> totalAmount = Num 100, f_vendor = '' Cafe '', f_date = ''2024-02-25'', f_notes = [],
       splits = [\<lparr> fs_amount = Num 60, fs_category = ''Food'' \<rparr>,
                 \<lparr> fs_amount = Num 40, fs_category = ''Other'' \<rparr>] \<rparr>"

definition rnd_ex :: "nat \<Rightarrow> string" where
  "rnd_ex i = ''k3j9x2m1'' @ toString_int (int i)"

definition mk_expense :: "string \<Rightarrow> string \<Rightarrow> rat \<Rightarrow> string \<Rightarrow> string \<Rightarrow> string \<Rightarrow> expense" where
  "mk_expense i tid a v c d =
     \<lparr> eid = i, transactionId = Some tid, amount = a, vendor = v, category = c, date = d, notes = Some [] \<rparr>"

definition txn100 :: "expense list" where
  "txn100 = [mk_expense ''100-a'' ''100'' 10 ''Shop'' ''Food'' ''2024-02-10'',
             mk_expense ''100-b'' ''100'' 20 ''Shop'' ''Transport'' ''2024-02-10'',
             mk_expense ''100-c'' ''100'' 30 ''Shop'' ''Other'' ''2024-02-10'']"

definition cur_ex :: currency where
  "cur_ex = \<lparr> code = Some ''INR'', cname = ''Indian Rupee'', symbol = ''Rs'' \<rparr>"

definition st_ex :: app_state where
  "st_ex = \<lparr> expenses = mk_expense ''200-a'' ''200'' 5 ''Cafe'' ''Food'' ''2024-02-12'' # txn100,
             categories = [], currency = cur_ex \<rparr>"

definition form_edit :: form where
  "form_edit =
     \<lparr> totalAmount = Num 60, f_vendor = ''Shop'', f_date = ''2024-02-10'', f_notes = [],
       splits = [\<lparr> fs_amount = Num 60, fs_category = ''Food'' \<rparr>] \<rparr>"

definition form_bad :: form where
  "form_bad =
     \<lparr> totalAmount = Num 60, f_vendor = ''Shop'', f_date = ''2024-02-10'', f_notes = [],
       splits = [\<lparr> fs_amount = Num 50, fs_category = ''Food'' \<rparr>] \<rparr>"

definition cats_ex :: "category_def list" where
  "cats_ex = [\<lparr> name = ''Food'', color = ''#34D399'', isDefault = True \<rparr>,
              \<lparr> name = ''Other'', color = ''#9CA3AF'', isDefault = True \<rparr>,
              \<lparr> name = ''Pets'', color = ''#123456'', isDefault = False \<rparr>]"

definition st_cats :: app_state where
  "st_cats = \<lparr> expenses = [mk_expense ''300-a'' ''300'' 8 ''Vet'' ''Pets'' ''2024-02-14'',
                           mk_expense ''200-a'' ''200'' 5 ''Cafe'' ''Food'' ''2024-02-12'',
                           mk_expense ''100-a'' ''100'' 7 ''Zoo'' ''Pets'' ''2024-02-10'',
                           mk_expense ''090-a'' ''090'' 1 ''Misc'' ''Other'' ''2024-02-09''],
               categories = cats_ex, currency = cur_ex \<rparr>"

definition doc_nocode :: backup_doc where
  "doc_nocode = \<lparr> d_version = Some 3,
                  d_expenses = Some [mk_expense ''500-a'' ''500'' 9 ''Bar'' ''Food'' ''2024-03-01''],
                  d_currency = Some \<lparr> code = None, cname = ''Euro'', symbol = ''E'' \<rparr>,
                  d_categories = Some [], d_customCategories = None \<rparr>"

definition doc_nolist :: backup_doc where
  "doc_nolist = \<lparr> d_version = Some 3, d_expenses = None,
                  d_currency = Some \<lparr> code = Some ''EUR'', cname = ''Euro'', symbol = ''E'' \<rparr>,
                  d_categories = Some [], d_customCategories = None \<rparr>"

definition legacy_ledger :: "expense list" where
  "legacy_ledger =
     [\<lparr> eid = ''100'', transactionId = None, amount = 4, vendor = ''Bus'', category = ''Transport'',
        date = ''2024-01-05'', notes = None \<rparr>,
      \<lparr> eid = ''200'', transactionId = Some [], amount = 6, vendor = ''Deli'', category = ''Food'',
        date = ''2024-01-05'', notes = None \<rparr>,
      mk_expense ''300-a'' ''300'' 8 ''Vet'' ''Pets'' ''2024-01-04'']"

definition st_case :: app_state where
  "st_case = \<lparr> expenses = [mk_expense ''400-a'' ''400'' 3 ''Stall'' ''food'' ''2024-02-15'',
                           mk_expense ''200-a'' ''200'' 5 ''Cafe'' ''Food'' ''2024-02-12''],
               categories = cats_ex, currency = cur_ex \<rparr>"

definition st_clash :: app_state where
  "st_clash = \<lparr> expenses = [mk_expense ''1700000000000-a'' ''1700000000000'' 5 ''Cafe'' ''Food'' ''2023-11-14''],
                categories = cats_ex, currency = cur_ex \<rparr>"

definition doc_legacy :: backup_doc where
  "doc_legacy = \<lparr> d_version = None, d_expenses = Some legacy_ledger, d_currency = Some cur_ex,
                  d_categories = None, d_customCategories = None \<rparr>"

definition ledger_today :: "expense list" where
  "ledger_today = [mk_expense ''900-a'' ''900'' 30 ''Rail'' ''Transport'' ''2024-02-26'',
                   mk_expense ''800-a'' ''800'' 12 ''Cafe'' ''Food'' ''2024-02-25'',
                   mk_expense ''700-a'' ''700'' 7 ''Deli'' ''Food'' ''2024-02-24'']"

definition form_cent :: form where
  "form_cent =
     \<lparr> totalAmount = to_double 2, f_vendor = ''Shop'', f_date = ''2024-02-10'', f_notes = [],
       splits = [\<lparr> fs_amount = to_double (1 / 100), fs_category = ''Food'' \<rparr>,
                 \<lparr> fs_amount = to_double 2, fs_category = ''Other'' \<rparr>] \<rparr>"

definition form_2884 :: form where
  "form_2884 =
     \<lparr> totalAmount = to_double (2884 / 100), f_vendor = ''Shop'', f_date = ''2024-02-10'', f_notes = [],
       splits = [\<lparr> fs_amount = to_double (551 / 100), fs_category = ''Food'' \<rparr>,
                 \<lparr> fs_amount = to_double (2332 / 100), fs_category = ''Other'' \<rparr>] \<rparr>"

definition st_dup :: app_state where
  "st_dup = \<lparr> expenses = [mk_expense ''200-a'' ''200'' 5 ''Cafe'' ''Food'' ''2024-02-12''],
              categories = [\<lparr> name = ''Food'', color = ''#34D399'', isDefault = True \<rparr>,
                            \<lparr> name = ''Other'', color = ''#9CA3AF'', isDefault = True \<rparr>,
                            \<lparr> name = ''Food'', color = ''#123456'', isDefault = False \<rparr>],
              currency = cur_ex \<rparr>"

section \<open>Auxiliary facts\<close>

lemma mset_insert_by: "mset (insert_by cmp x ys) = add_mset x (mset ys)"
  by (induction ys) simp_all

lemma mset_array_sort: "mset (array_sort cmp xs) = mset xs"
  by (induction xs) (simp_all add: mset_insert_by)

lemma mset_sortExpenses: "mset (sortExpenses xs) = mset xs"
  by (simp add: sortExpenses_def mset_array_sort)

lemma set_sortExpenses: "set (sortExpenses xs) = set xs"
  using mset_sortExpenses [of xs] by (metis set_mset_mset)

lemma length_sortExpenses: "length (sortExpenses xs) = length xs"
  using mset_sortExpenses [of xs] by (metis size_mset)

lemma set_insert_by: "set (insert_by cmp x ys) = insert x (set ys)"
  using mset_insert_by [of cmp x ys] by (metis set_mset_mset set_mset_add_mset_insert)

lemma cmp_le_precedes:
  assumes "readable a" and "readable b"
  shows "cmp_le compareExpenses a b = precedes a b"
  using assms
  by (auto simp add: readable_def cmp_le_def compareExpenses_def precedes_def js_minus_def Let_def)

lemma precedes_total:
  assumes "readable a" and "readable b"
  shows "precedes a b \<or> precedes b a"
  using assms by (auto simp add: readable_def precedes_def)

lemma precedes_trans:
  assumes "precedes a b" and "precedes b c"
  shows "precedes a c"
  using assms by (auto simp add: precedes_def split: option.splits)

lemma sorted_insert_by:
  assumes "readable x" and "\<forall>y \<in> set ys. readable y" and "sorted_wrt precedes ys"
  shows "sorted_wrt precedes (insert_by compareExpenses x ys)"
  using assms
proof (induction ys)
  case Nil
  then show ?case by simp
next
  case (Cons y ys)
  show ?case
  proof (cases "cmp_le compareExpenses x y")
    case True
    with Cons.prems have xy: "precedes x y" by (simp add: cmp_le_precedes)
    have "\<forall>z \<in> set ys. precedes x z"
      using Cons.prems(3) xy precedes_trans by auto
    with xy Cons.prems(3) True show ?thesis by simp
  next
    case False
    with Cons.prems have "\<not> precedes x y" by (simp add: cmp_le_precedes)
    with Cons.prems have yx: "precedes y x" using precedes_total [of x y] by auto
    have "sorted_wrt precedes (insert_by compareExpenses x ys)"
      using Cons by simp
    moreover have "\<forall>z \<in> set (insert_by compareExpenses x ys). precedes y z"
      using Cons.prems(3) yx by (simp add: set_insert_by)
    ultimately show ?thesis using False by simp
  qed
qed

lemma ledger_ordered_sortExpenses:
  assumes "\<forall>e \<in> set xs. readable e"
  shows "ledger_ordered (sortExpenses xs)"
  using assms unfolding ledger_ordered_def sortExpenses_def
proof (induction xs)
  case Nil
  then show ?case by simp
next
  case (Cons x xs)
  have "set (array_sort compareExpenses xs) = set xs"
    using set_sortExpenses [of xs] by (simp add: sortExpenses_def)
  with Cons show ?case by (simp add: sorted_insert_by)
qed

lemma ledger_ordered_filter: "ledger_ordered xs \<Longrightarrow> ledger_ordered (filter P xs)"
  by (simp add: ledger_ordered_def sorted_wrt_filter)

section \<open>The validator\<close>

lemma js_pos_cases: "js_pos x \<longleftrightarrow> x = PosInf \<or> (\<exists>r. x = Num r \<and> 0 < r)"
  by (cases x) (simp_all add: js_pos_def)

lemma or_zero_pos: "js_pos x \<Longrightarrow> or_zero x = x"
  by (auto simp add: js_pos_cases or_zero_def falsy_def)


lemma allocated_js_sum: "allocated f = js_sum (map (\<lambda>s. or_zero (fs_amount s)) (splits f))"
  by (simp add: allocated_def js_sum_def foldl_map)

lemma map_or_zero_pos:
  assumes "\<forall>s \<in> set ss. js_pos (fs_amount s)"
  shows "map (\<lambda>s. or_zero (fs_amount s)) ss = map fs_amount ss"
  using assms by (induction ss) (simp_all add: or_zero_pos)



text \<open>
  At the boundary the rounding decides: a total of 2 against splits of 0.01 and 2 is
  accepted (the remainder is -0.009999999999999787), a total of 28.84 against splits
  of 5.51 and 23.32 is not (the remainder is 0.010000000000001563).
\<close>

lemma validate_at_the_boundary:
  "isValid form_cent
   \<and> remainingAmount form_cent = Num (- 5629499534213 / 562949953421312)
   \<and> \<not> isValid form_2884
   \<and> remainingAmount form_2884 = Num (2814749767107 / 281474976710656)"
  by code_simp

text \<open>
  In a valid form every split amount is a finite positive number, so \<open>finalSplits\<close>
  hands over the amounts of the form as they are.
\<close>

lemma pow2_pos: "0 < pow2 e"
  by (simp add: pow2_def)

lemma round_half_even_nonneg: "0 \<le> x \<Longrightarrow> 0 \<le> round_half_even x"
  by (simp add: round_half_even_def Let_def)

lemma to_double_nonneg: "0 \<le> x \<Longrightarrow> nonneg (to_double x)"
proof (cases "x = 0")
  case True
  then show ?thesis by (simp add: to_double_def nonneg_def)
next
  case False
  assume "0 \<le> x"
  with False have pos: "0 < x" by simp
  have "0 \<le> \<bar>x\<bar> / pow2 e" for e
    using pow2_pos [of e] by simp
  then have "0 \<le> round_half_even (\<bar>x\<bar> / pow2 e)" for e
    by (rule round_half_even_nonneg)
  then have "0 \<le> (of_int (round_half_even (\<bar>x\<bar> / pow2 e)) :: rat) * pow2 e" for e
    using pow2_pos [of e] by simp
  with pos show ?thesis
    by (simp add: to_double_def nonneg_def Let_def)
qed

lemma js_add_nonneg:
  assumes "nonneg a" and "nonneg b"
  shows "nonneg (js_add a b)"
proof (cases "a = PosInf \<or> b = PosInf")
  case True
  with assms show ?thesis by (auto simp add: nonneg_def)
next
  case False
  with assms obtain r q where "a = Num r" "0 \<le> r" "b = Num q" "0 \<le> q"
    by (auto simp add: nonneg_def)
  then show ?thesis by (simp add: to_double_nonneg)
qed

lemma js_less_PosInf: "\<not> js_less PosInf y"
  by (cases y) simp_all

lemma js_add_PosInf: "nonneg a \<Longrightarrow> js_add a PosInf = PosInf" "nonneg b \<Longrightarrow> js_add PosInf b = PosInf"
  by (auto simp add: nonneg_def)

lemma foldl_PosInf:
  assumes "\<forall>x \<in> set xs. nonneg x"
  shows "foldl js_add PosInf xs = PosInf"
  using assms by (induction xs) (simp_all add: js_add_PosInf)

lemma js_sum_PosInf:
  assumes "\<forall>x \<in> set xs. nonneg x" and "nonneg a" and "PosInf \<in> set xs"
  shows "foldl js_add a xs = PosInf"
  using assms
proof (induction xs arbitrary: a)
  case Nil
  then show ?case by simp
next
  case (Cons x xs)
  show ?case
  proof (cases "x = PosInf")
    case True
    with Cons.prems show ?thesis by (simp add: js_add_PosInf foldl_PosInf)
  next
    case False
    with Cons.prems have "PosInf \<in> set xs" by simp
    moreover from Cons.prems have "nonneg (js_add a x)" by (simp add: js_add_nonneg)
    ultimately show ?thesis using Cons by simp
  qed
qed

lemma js_pos_nonneg: "js_pos x \<Longrightarrow> nonneg x"
  by (auto simp add: js_pos_cases nonneg_def)

lemma valid_amounts_finite:
  assumes "isValid f" and "s \<in> set (splits f)"
  shows "\<exists>r. fs_amount s = Num r \<and> 0 < r"
proof (rule ccontr)
  assume no: "\<not> (\<exists>r. fs_amount s = Num r \<and> 0 < r)"
  from assms(1) have all: "\<forall>s \<in> set (splits f). js_pos (fs_amount s)"
    by (simp add: isValid_def allSplitsValid_def list_all_iff)
  with assms(2) no have inf: "fs_amount s = PosInf"
    by (auto simp add: js_pos_cases)
  from all have nn: "\<forall>x \<in> set (map fs_amount (splits f)). nonneg x"
    by (simp add: js_pos_nonneg)
  from inf assms(2) have "PosInf \<in> set (map fs_amount (splits f))"
    by force
  with nn have "js_sum (map fs_amount (splits f)) = PosInf"
    unfolding js_sum_def by (intro js_sum_PosInf) (simp_all add: nonneg_def)
  moreover from all have "allocated f = js_sum (map fs_amount (splits f))"
    by (simp add: allocated_js_sum map_or_zero_pos)
  ultimately have "allocated f = PosInf" by simp
  then have "\<not> js_less (js_abs (js_sub (parsedTotal f) (allocated f))) (to_double (1 / 100))"
    by (cases "parsedTotal f") (simp_all add: js_sub_def js_less_PosInf)
  with assms(1) show False
    by (simp add: isValid_def isAmountCorrect_def remainingAmount_def)
qed

lemma finalSplits_amounts:
  assumes "isValid f"
  shows "map (\<lambda>sp. Num (s_amount sp)) (finalSplits f) = map fs_amount (splits f)"
proof -
  have "Num (amount_of (fs_amount s)) = fs_amount s" if "s \<in> set (splits f)" for s
    using valid_amounts_finite [OF assms that] by (auto simp add: amount_of_def)
  then show ?thesis by (simp add: finalSplits_def o_def)
qed

section \<open>Replacing a transaction\<close>

lemma set_buildExpenses_tid: "e \<in> set (buildExpenses tid rnd t) \<Longrightarrow> transactionId e = tid"
  by (auto simp add: buildExpenses_def)

lemma length_buildExpenses: "length (buildExpenses tid rnd t) = length (t_splits t)"
  by (simp add: buildExpenses_def)

text \<open>
  C2. An edit replaces a transaction in one step of the state: the new ledger holds
  exactly the splits of the other transactions and the freshly built splits, which all
  carry the edited transaction's id; it is the ledger after deleting the transaction,
  with the new splits appended and the whole sorted. Categories and currency are not
  touched. A form that fails validation leaves the state as it was; a valid form in
  edit mode performs that replacement.
\<close>

theorem updateTransaction_replaces:
  "mset (expenses (updateTransaction tid rnd t st)) =
     mset (filter (\<lambda>e. transactionId e \<noteq> tid) (expenses st)) + mset (buildExpenses tid rnd t)
   \<and> expenses (updateTransaction (Some tid') rnd t st) =
       sortExpenses (expenses (deleteTransaction tid' st) @ buildExpenses (Some tid') rnd t)
   \<and> (\<forall>e \<in> set (buildExpenses tid rnd t). transactionId e = tid)
   \<and> length (buildExpenses tid rnd t) = length (t_splits t)
   \<and> categories (updateTransaction tid rnd t st) = categories st
   \<and> currency (updateTransaction tid rnd t st) = currency st
   \<and> (\<not> isValid f \<longrightarrow> handleSubmit f edit now rnd st = (None, st))
   \<and> (isValid f \<longrightarrow> handleSubmit f (Some (e0 # es)) now rnd st =
          (None, updateTransaction (transactionId e0) rnd (formTransaction f) st))"
  by (simp add: updateTransaction_def deleteTransaction_def handleSubmit_def mset_sortExpenses
        set_buildExpenses_tid length_buildExpenses)

theorem updateTransaction_replaces_witness:
  "handleSubmit form_bad (Some txn100) 0 rnd_ex st_ex = (None, st_ex)
   \<and> expenses (snd (handleSubmit form_edit (Some txn100) 0 rnd_ex st_ex)) =
      [mk_expense ''200-a'' ''200'' 5 ''Cafe'' ''Food'' ''2024-02-12'',
       mk_expense ''100-k3j9x2m10'' ''100'' 60 ''Shop'' ''Food'' ''2024-02-10'']"
proof -
  have bad: "\<not> isValid form_bad" by code_simp
  have ok: "isValid form_edit" by code_simp
  have ev: "expenses (updateTransaction (Some ''100'') rnd_ex (formTransaction form_edit) st_ex) =
      [mk_expense ''200-a'' ''200'' 5 ''Cafe'' ''Food'' ''2024-02-12'',
       mk_expense ''100-k3j9x2m10'' ''100'' 60 ''Shop'' ''Food'' ''2024-02-10'']"
    by code_simp
  have tid: "transactionId (mk_expense ''100-a'' ''100'' 10 ''Shop'' ''Food'' ''2024-02-10'') = Some ''100''"
    by (simp add: mk_expense_def)
  from bad ok ev tid show ?thesis
    using updateTransaction_replaces [of "Some ''100''" rnd_ex "formTransaction form_edit" st_ex "''100''" form_bad "Some txn100" 0]
      updateTransaction_replaces [of "Some ''100''" rnd_ex "formTransaction form_edit" st_ex "''100''" form_edit "Some txn100" 0
        "mk_expense ''100-a'' ''100'' 10 ''Shop'' ''Food'' ''2024-02-10''"
        "[mk_expense ''100-b'' ''100'' 20 ''Shop'' ''Transport'' ''2024-02-10'',
          mk_expense ''100-c'' ''100'' 30 ''Shop'' ''Other'' ''2024-02-10'']"]
    by (simp add: txn100_def)
qed

section \<open>Deleting a category\<close>

lemma count_after_reassign:
  assumes "c \<noteq> t"
  shows "length (filter (\<lambda>e. category e = t) (map (\<lambda>e. if category e = c then e\<lparr> category := t \<rparr> else e) es))
         = length (filter (\<lambda>e. category e = t) es) + length (filter (\<lambda>e. category e = c) es)"
  using assms by (induction es) auto

lemma none_after_reassign:
  assumes "c \<noteq> t"
  shows "filter (\<lambda>e. category e = c) (map (\<lambda>e. if category e = c then e\<lparr> category := t \<rparr> else e) es) = []"
  using assms by (induction es) auto

text \<open>
  C3, as amended. The delete control exists exactly for a category that is neither
  default nor named \<open>Other\<close>. For such a category the confirmed delete removes its
  name from the registry and, in the same step, moves every split of exactly that
  category to \<open>Other\<close>: no split carries the name any more, \<open>Other\<close> gains exactly as
  many splits as carried it, and the currency is as it was. A declined confirmation
  changes nothing.
\<close>

theorem handleDelete_cascade:
  "(hasDeleteButton c \<longleftrightarrow> \<not> (isDefault c \<or> name c = ''Other''))
   \<and> handleDelete nm False st = st
   \<and> (hasDeleteButton c \<longrightarrow>
        name c \<notin> set (map name (categories (handleDelete (name c) True st)))
        \<and> categories (handleDelete (name c) True st) = filter (\<lambda>d. name d \<noteq> name c) (categories st)
        \<and> expenses (handleDelete (name c) True st) =
            map (\<lambda>e. if category e = name c then e\<lparr> category := ''Other'' \<rparr> else e) (expenses st)
        \<and> filter (\<lambda>e. category e = name c) (expenses (handleDelete (name c) True st)) = []
        \<and> length (filter (\<lambda>e. category e = ''Other'') (expenses (handleDelete (name c) True st)))
            = length (filter (\<lambda>e. category e = ''Other'') (expenses st))
              + length (filter (\<lambda>e. category e = name c) (expenses st))
        \<and> currency (handleDelete (name c) True st) = currency st)"
proof (cases "hasDeleteButton c")
  case True
  then have ne: "name c \<noteq> ''Other''" by (simp add: hasDeleteButton_def)
  have ex: "expenses (handleDelete (name c) True st) =
            map (\<lambda>e. if category e = name c then e\<lparr> category := ''Other'' \<rparr> else e) (expenses st)"
    by (simp add: handleDelete_def)
  have cs: "categories (handleDelete (name c) True st) = filter (\<lambda>d. name d \<noteq> name c) (categories st)"
    by (simp add: handleDelete_def)
  have cu: "currency (handleDelete (name c) True st) = currency st"
    by (simp add: handleDelete_def)
  have gone: "name c \<notin> set (map name (categories (handleDelete (name c) True st)))"
    unfolding cs by auto
  have zero: "filter (\<lambda>e. category e = name c) (expenses (handleDelete (name c) True st)) = []"
    unfolding ex by (rule none_after_reassign [OF ne])
  have cnt: "length (filter (\<lambda>e. category e = ''Other'') (expenses (handleDelete (name c) True st)))
            = length (filter (\<lambda>e. category e = ''Other'') (expenses st))
              + length (filter (\<lambda>e. category e = name c) (expenses st))"
    unfolding ex by (rule count_after_reassign [OF ne])
  have declined: "handleDelete nm False st = st"
    by (simp add: handleDelete_def)
  have guard: "hasDeleteButton c \<longleftrightarrow> \<not> (isDefault c \<or> name c = ''Other'')"
    by (simp add: hasDeleteButton_def)
  from guard declined gone cs ex zero cnt cu show ?thesis by blast
next
  case False
  have declined: "handleDelete nm False st = st"
    by (simp add: handleDelete_def)
  have guard: "hasDeleteButton c \<longleftrightarrow> \<not> (isDefault c \<or> name c = ''Other'')"
    by (simp add: hasDeleteButton_def)
  from False guard declined show ?thesis by blast
qed

theorem handleDelete_cascade_witness:
  "hasDeleteButton \<lparr> name = ''Pets'', color = ''#123456'', isDefault = False \<rparr>
   \<and> map category (expenses (handleDelete ''Pets'' True st_cats)) = [''Other'', ''Food'', ''Other'', ''Other'']
   \<and> map name (categories (handleDelete ''Pets'' True st_cats)) = [''Food'', ''Other'']
   \<and> handleDelete ''Pets'' False st_cats = st_cats"
proof -
  have b: "hasDeleteButton \<lparr> name = ''Pets'', color = ''#123456'', isDefault = False \<rparr>"
    by (simp add: hasDeleteButton_def)
  note r = handleDelete_cascade [of "\<lparr> name = ''Pets'', color = ''#123456'', isDefault = False \<rparr>" "''Pets''" st_cats]
  from r b have ex: "expenses (handleDelete ''Pets'' True st_cats) =
      map (\<lambda>e. if category e = ''Pets'' then e\<lparr> category := ''Other'' \<rparr> else e) (expenses st_cats)"
    and cs: "categories (handleDelete ''Pets'' True st_cats) = filter (\<lambda>d. name d \<noteq> ''Pets'') (categories st_cats)"
    and no: "handleDelete ''Pets'' False st_cats = st_cats"
    by simp_all
  have e1: "map category (map (\<lambda>e. if category e = ''Pets'' then e\<lparr> category := ''Other'' \<rparr> else e) (expenses st_cats))
      = [''Other'', ''Food'', ''Other'', ''Other'']"
    by (simp add: st_cats_def mk_expense_def)
  have e2: "map name (filter (\<lambda>d. name d \<noteq> ''Pets'') (categories st_cats)) = [''Food'', ''Other'']"
    by (simp add: st_cats_def cats_ex_def)
  from b ex cs no e1 e2 show ?thesis by (simp only: simp_thms)
qed

text \<open>
  \<open>handleDelete\<close> itself refuses nothing: called with the name of a default category
  it removes the category and moves its splits, and no error is raised.
\<close>

theorem handleDelete_unguarded_counterexample:
  "list_ex (\<lambda>c. name c = ''Food'' \<and> isDefault c) (categories st_cats)
   \<and> map name (categories (handleDelete ''Food'' True st_cats)) = [''Other'', ''Pets'']
   \<and> map category (expenses st_cats) = [''Pets'', ''Food'', ''Pets'', ''Other'']
   \<and> map category (expenses (handleDelete ''Food'' True st_cats)) = [''Pets'', ''Other'', ''Pets'', ''Other'']
   \<and> handleDelete ''Food'' True st_cats \<noteq> st_cats"
  by code_simp

text \<open>
  The control guards the entry, the deletion goes by name: where a custom entry shares
  its name with a default one, deleting the custom entry removes both.
\<close>

lemma delete_by_name_reaches_default:
  "hasDeleteButton (categories st_dup ! 2)
   \<and> map name (categories (handleDelete (name (categories st_dup ! 2)) True st_dup)) = [''Other'']"
  by code_simp

section \<open>Restoring an invalid document\<close>

text \<open>
  C4. A restore fails with \<open>FormatError\<close> exactly when the document is refused (its
  expenses are not a list, or its currency code is missing), and then the ledger, the
  categories and the currency are what they were.
\<close>

theorem restore_invalid_unchanged:
  "(fst (handleFileSelect confirmed parsedData st) = Some FormatError \<longleftrightarrow> invalid_doc parsedData)
   \<and> (invalid_doc parsedData \<longrightarrow> handleFileSelect confirmed parsedData st = (Some FormatError, st))"
  by (auto simp add: handleFileSelect_def invalid_doc_def currency_code_def truthy_def split: option.splits)

theorem restore_invalid_unchanged_witness:
  "handleFileSelect True (Some doc_nocode) st_cats = (Some FormatError, st_cats)
   \<and> handleFileSelect True (Some doc_nolist) st_cats = (Some FormatError, st_cats)"
  using restore_invalid_unchanged [of True "Some doc_nocode" st_cats]
    restore_invalid_unchanged [of True "Some doc_nolist" st_cats]
  by (simp add: invalid_doc_def currency_code_def doc_nocode_def doc_nolist_def truthy_def)

section \<open>The legacy upgrade\<close>

lemma upgradeExpenses_idem: "upgradeExpenses (upgradeExpenses es) = upgradeExpenses es"
  by (induction es) (simp_all add: upgradeExpenses_def)

lemma upgradeExpenses_id:
  assumes "\<forall>e \<in> set es. truthy (transactionId e)"
  shows "upgradeExpenses es = es"
  using assms by (induction es) (simp_all add: upgradeExpenses_def)

lemma migrate_is_upgrade: "migrateExpenses es = upgradeExpenses es"
  by (induction es) (simp_all add: migrateExpenses_def upgradeExpenses_def)

text \<open>
  C9. The legacy upgrade (a split without a transaction id gets its own id as one) is
  idempotent, in the restore and in the start-up migration alike: applied twice it
  gives what it gives applied once. On a list where every split has a transaction id
  it changes nothing, and the start-up migration then leaves the whole state as it is.
\<close>

theorem legacy_upgrade_idempotent:
  "upgradeExpenses (upgradeExpenses es) = upgradeExpenses es
   \<and> migrateExpenses (migrateExpenses es) = migrateExpenses es
   \<and> ((\<forall>e \<in> set es. truthy (transactionId e)) \<longrightarrow> upgradeExpenses es = es \<and> migrateExpenses es = es)
   \<and> ((\<forall>e \<in> set (expenses st). truthy (transactionId e)) \<longrightarrow> initExpenses st = st)"
proof -
  have "(\<forall>e \<in> set (expenses st). truthy (transactionId e)) \<longrightarrow> initExpenses st = st"
    by (simp add: initExpenses_def list_ex_iff)
  then show ?thesis
    by (simp add: migrate_is_upgrade upgradeExpenses_idem upgradeExpenses_id)
qed

theorem legacy_upgrade_idempotent_witness:
  "map transactionId (upgradeExpenses legacy_ledger) = [Some ''100'', Some ''200'', Some ''300'']
   \<and> upgradeExpenses (upgradeExpenses legacy_ledger) = upgradeExpenses legacy_ledger
   \<and> upgradeExpenses (upgradeExpenses (upgradeExpenses legacy_ledger)) = upgradeExpenses legacy_ledger"
proof -
  have a: "map transactionId (upgradeExpenses legacy_ledger) = [Some ''100'', Some ''200'', Some ''300'']"
    by (simp add: upgradeExpenses_def legacy_ledger_def mk_expense_def truthy_def)
  then have b: "\<forall>e \<in> set (upgradeExpenses legacy_ledger). truthy (transactionId e)"
    by (simp add: upgradeExpenses_def legacy_ledger_def mk_expense_def truthy_def)
  from a b show ?thesis
    using legacy_upgrade_idempotent [of legacy_ledger]
      legacy_upgrade_idempotent [of "upgradeExpenses legacy_ledger"]
    by simp
qed

section \<open>What the category cascades leave alone\<close>

text \<open>
  C10. Renaming and deleting a category keep the number of splits and, split by
  split, the id, transaction id, amount, vendor, date and notes; a split of another
  category is not changed at all.
\<close>

theorem cascade_frame:
  "length (expenses (snd (handleSave isAdding editingCatName fname fcolor st))) = length (expenses st)
   \<and> length (expenses (handleDelete nm confirmed st)) = length (expenses st)
   \<and> (\<forall>i < length (expenses st).
         eid (expenses (snd (handleSave isAdding editingCatName fname fcolor st)) ! i) = eid (expenses st ! i)
       \<and> transactionId (expenses (snd (handleSave isAdding editingCatName fname fcolor st)) ! i) = transactionId (expenses st ! i)
       \<and> amount (expenses (snd (handleSave isAdding editingCatName fname fcolor st)) ! i) = amount (expenses st ! i)
       \<and> vendor (expenses (snd (handleSave isAdding editingCatName fname fcolor st)) ! i) = vendor (expenses st ! i)
       \<and> date (expenses (snd (handleSave isAdding editingCatName fname fcolor st)) ! i) = date (expenses st ! i)
       \<and> notes (expenses (snd (handleSave isAdding editingCatName fname fcolor st)) ! i) = notes (expenses st ! i)
       \<and> (Some (category (expenses st ! i)) \<noteq> editingCatName \<longrightarrow>
            expenses (snd (handleSave isAdding editingCatName fname fcolor st)) ! i = expenses st ! i)
       \<and> eid (expenses (handleDelete nm confirmed st) ! i) = eid (expenses st ! i)
       \<and> transactionId (expenses (handleDelete nm confirmed st) ! i) = transactionId (expenses st ! i)
       \<and> amount (expenses (handleDelete nm confirmed st) ! i) = amount (expenses st ! i)
       \<and> vendor (expenses (handleDelete nm confirmed st) ! i) = vendor (expenses st ! i)
       \<and> date (expenses (handleDelete nm confirmed st) ! i) = date (expenses st ! i)
       \<and> notes (expenses (handleDelete nm confirmed st) ! i) = notes (expenses st ! i)
       \<and> (category (expenses st ! i) \<noteq> nm \<longrightarrow> expenses (handleDelete nm confirmed st) ! i = expenses st ! i))"
  by (simp add: handleSave_def handleDelete_def Let_def split: option.splits)

theorem cascade_frame_witness:
  "map category (expenses (snd (handleSave False (Some ''Pets'') ''Animals '' ''#111111'' st_cats)))
     = [''Animals'', ''Food'', ''Animals'', ''Other'']
   \<and> expenses (snd (handleSave False (Some ''Pets'') ''Animals '' ''#111111'' st_cats)) ! 1 = expenses st_cats ! 1
   \<and> map eid (expenses (snd (handleSave False (Some ''Pets'') ''Animals '' ''#111111'' st_cats)))
     = map eid (expenses st_cats)
   \<and> map category (expenses (handleDelete ''Pets'' True st_cats)) = [''Other'', ''Food'', ''Other'', ''Other'']
   \<and> expenses (handleDelete ''Pets'' True st_cats) ! 1 = expenses st_cats ! 1"
proof -
  have len: "(1::nat) < length (expenses st_cats)"
    by (simp add: st_cats_def)
  have other: "Some (category (expenses st_cats ! 1)) \<noteq> Some ''Pets''" "category (expenses st_cats ! 1) \<noteq> ''Pets''"
    by (simp_all add: st_cats_def mk_expense_def)
  have keep: "expenses (snd (handleSave False (Some ''Pets'') ''Animals '' ''#111111'' st_cats)) ! 1 = expenses st_cats ! 1"
      "expenses (handleDelete ''Pets'' True st_cats) ! 1 = expenses st_cats ! 1"
    using cascade_frame [of False "Some ''Pets''" "''Animals ''" "''#111111''" st_cats "''Pets''" True] len other
    by blast+
  have ev1: "map category (expenses (snd (handleSave False (Some ''Pets'') ''Animals '' ''#111111'' st_cats)))
     = [''Animals'', ''Food'', ''Animals'', ''Other'']"
    by code_simp
  have ev2: "map eid (expenses (snd (handleSave False (Some ''Pets'') ''Animals '' ''#111111'' st_cats)))
     = map eid (expenses st_cats)"
    by code_simp
  have ev3: "map category (expenses (handleDelete ''Pets'' True st_cats)) = [''Other'', ''Food'', ''Other'', ''Other'']"
    by code_simp
  from keep ev1 ev2 ev3 show ?thesis by simp
qed

section \<open>Renaming a category\<close>

lemma handleSave_rename_expenses:
  assumes "handleSave False (Some old) fname fcolor st = (None, st')"
    and "old \<noteq> []"
    and "toLowerCase old \<noteq> toLowerCase (trim fname)"
  shows "expenses st' = map (\<lambda>e. if category e = old then e\<lparr> category := trim fname \<rparr> else e) (expenses st)"
proof (cases "validateName (map name (categories st)) fname (Some old)")
  case None
  with assms(2,3) have "snd (handleSave False (Some old) fname fcolor st) =
     (st\<lparr> expenses := map (\<lambda>exp. if Some (category exp) = Some old then exp\<lparr> category := trim fname \<rparr> else exp) (expenses st) \<rparr>)
       \<lparr> categories := map (\<lambda>cat. if Some (name cat) = Some old then cat\<lparr> name := trim fname, color := fcolor \<rparr> else cat)
                              (categories st) \<rparr>"
    by (simp add: handleSave_def Let_def truthy_def)
  with assms(1) show ?thesis by simp
next
  case (Some err)
  then have "fst (handleSave False (Some old) fname fcolor st) = Some err"
    by (simp add: handleSave_def)
  with assms(1) show ?thesis by simp
qed

text \<open>
  C6, as amended. After a successful rename of a category of non-empty name to a name
  that differs from the old one by more than letter case, every split whose category
  is exactly the old name carries the new (trimmed) name and every other split is as
  it was; no split carries the old name any more, and the new name gains exactly the
  splits that carried the old one.
\<close>

theorem rename_cascade_exact:
  assumes "handleSave False (Some old) fname fcolor st = (None, st')"
    and "old \<noteq> []"
    and "toLowerCase old \<noteq> toLowerCase (trim fname)"
  shows "expenses st' = map (\<lambda>e. if category e = old then e\<lparr> category := trim fname \<rparr> else e) (expenses st)
         \<and> (\<forall>e \<in> set (expenses st'). category e \<noteq> old)
         \<and> length (filter (\<lambda>e. category e = trim fname) (expenses st'))
             = length (filter (\<lambda>e. category e = trim fname) (expenses st))
               + length (filter (\<lambda>e. category e = old) (expenses st))"
proof -
  have ne: "old \<noteq> trim fname" using assms(3) by auto
  have ex: "expenses st' = map (\<lambda>e. if category e = old then e\<lparr> category := trim fname \<rparr> else e) (expenses st)"
    using assms by (rule handleSave_rename_expenses)
  have "filter (\<lambda>e. category e = old) (expenses st') = []"
    unfolding ex by (rule none_after_reassign [OF ne])
  then have none: "\<forall>e \<in> set (expenses st'). category e \<noteq> old"
    by (simp add: filter_empty_conv)
  have cnt: "length (filter (\<lambda>e. category e = trim fname) (expenses st'))
             = length (filter (\<lambda>e. category e = trim fname) (expenses st))
               + length (filter (\<lambda>e. category e = old) (expenses st))"
    unfolding ex by (rule count_after_reassign [OF ne])
  from ex none cnt show ?thesis by blast
qed

theorem rename_cascade_exact_witness:
  "expenses (snd (handleSave False (Some ''Pets'') ''Animals '' ''#111111'' st_cats))
     = [mk_expense ''300-a'' ''300'' 8 ''Vet'' ''Animals'' ''2024-02-14'',
        mk_expense ''200-a'' ''200'' 5 ''Cafe'' ''Food'' ''2024-02-12'',
        mk_expense ''100-a'' ''100'' 7 ''Zoo'' ''Animals'' ''2024-02-10'',
        mk_expense ''090-a'' ''090'' 1 ''Misc'' ''Other'' ''2024-02-09'']
   \<and> list_all (\<lambda>e. category e \<noteq> ''Pets'') (expenses (snd (handleSave False (Some ''Pets'') ''Animals '' ''#111111'' st_cats)))"
proof -
  have ok: "fst (handleSave False (Some ''Pets'') ''Animals '' ''#111111'' st_cats) = None"
    by code_simp
  then have run: "handleSave False (Some ''Pets'') ''Animals '' ''#111111'' st_cats
             = (None, snd (handleSave False (Some ''Pets'') ''Animals '' ''#111111'' st_cats))"
    by (metis prod.collapse)
  have ne: "''Pets'' \<noteq> ([]::string)" by simp
  have lower: "toLowerCase ''Pets'' \<noteq> toLowerCase (trim ''Animals '')" by code_simp
  have tr: "trim ''Animals '' = ''Animals''" by code_simp
  note r = rename_cascade_exact [OF run ne lower]
  from r have a0: "expenses (snd (handleSave False (Some ''Pets'') ''Animals '' ''#111111'' st_cats))
     = map (\<lambda>e. if category e = ''Pets'' then e\<lparr> category := trim ''Animals '' \<rparr> else e) (expenses st_cats)"
    by (rule conjunct1)
  then have a: "expenses (snd (handleSave False (Some ''Pets'') ''Animals '' ''#111111'' st_cats))
     = map (\<lambda>e. if category e = ''Pets'' then e\<lparr> category := ''Animals'' \<rparr> else e) (expenses st_cats)"
    by (simp only: tr)
  have a': "map (\<lambda>e. if category e = ''Pets'' then e\<lparr> category := ''Animals'' \<rparr> else e) (expenses st_cats)
     = [mk_expense ''300-a'' ''300'' 8 ''Vet'' ''Animals'' ''2024-02-14'',
        mk_expense ''200-a'' ''200'' 5 ''Cafe'' ''Food'' ''2024-02-12'',
        mk_expense ''100-a'' ''100'' 7 ''Zoo'' ''Animals'' ''2024-02-10'',
        mk_expense ''090-a'' ''090'' 1 ''Misc'' ''Other'' ''2024-02-09'']"
    by (simp add: st_cats_def mk_expense_def)
  from r have b0: "\<forall>e \<in> set (expenses (snd (handleSave False (Some ''Pets'') ''Animals '' ''#111111'' st_cats))). category e \<noteq> ''Pets''"
    by (rule conjunct1 [OF conjunct2])
  then have b: "list_all (\<lambda>e. category e \<noteq> ''Pets'') (expenses (snd (handleSave False (Some ''Pets'') ''Animals '' ''#111111'' st_cats)))"
    by (simp only: list_all_iff)
  from a a' b show ?thesis by (simp only: simp_thms)
qed

text \<open>
  The cascade matches the old name exactly: a split whose category differs from it in
  letter case only is not rewritten, and still refers to the old name when categories
  are compared without regard to case.
\<close>

theorem rename_case_insensitive_counterexample:
  "fst (handleSave False (Some ''Food'') ''Meals'' ''#000000'' st_case) = None
   \<and> map category (expenses st_case) = [''food'', ''Food'']
   \<and> toLowerCase ''food'' = toLowerCase ''Food''
   \<and> map category (expenses (snd (handleSave False (Some ''Food'') ''Meals'' ''#000000'' st_case))) = [''food'', ''Meals'']
   \<and> \<not> list_all (\<lambda>e. toLowerCase (category e) \<noteq> toLowerCase ''Food'')
           (expenses (snd (handleSave False (Some ''Food'') ''Meals'' ''#000000'' st_case)))"
  by code_simp

text \<open>
  A rename that changes letter case only renames the registry entry and skips the
  cascade: the splits keep the old spelling.
\<close>

lemma rename_letter_case_only:
  "fst (handleSave False (Some ''Food'') ''FOOD'' ''#34D399'' st_case) = None
   \<and> map name (categories (snd (handleSave False (Some ''Food'') ''FOOD'' ''#34D399'' st_case)))
       = [''FOOD'', ''Other'', ''Pets'']
   \<and> map category (expenses (snd (handleSave False (Some ''Food'') ''FOOD'' ''#34D399'' st_case)))
       = [''food'', ''Food'']"
  by code_simp

section \<open>Splits of one transaction agree\<close>

lemma txn_consistent_iff: "txn_consistent es \<longleftrightarrow> (\<forall>a \<in> set es. \<forall>b \<in> set es. agree a b)"
  by (simp add: txn_consistent_def list_all_iff)

lemma txn_consistent_cong: "set xs = set ys \<Longrightarrow> txn_consistent xs = txn_consistent ys"
  by (simp add: txn_consistent_iff)

lemma txn_consistent_subset: "set ys \<subseteq> set xs \<Longrightarrow> txn_consistent xs \<Longrightarrow> txn_consistent ys"
  by (auto simp add: txn_consistent_iff)

lemma buildExpenses_fields:
  assumes "e \<in> set (buildExpenses tid rnd t)"
  shows "transactionId e = tid \<and> vendor e = t_vendor t \<and> date e = t_date t \<and> notes e = t_notes t"
  using assms by (auto simp add: buildExpenses_def)

lemma map_snd_of_enumerate: "map (\<lambda>p. g (snd p)) (enumerate n xs) = map g xs"
  by (induction xs arbitrary: n) simp_all

lemma buildExpenses_amounts: "map amount (buildExpenses tid rnd t) = map s_amount (t_splits t)"
  by (simp add: buildExpenses_def case_prod_unfold o_def map_snd_of_enumerate)

lemma txn_consistent_with_new:
  assumes "txn_consistent old" and "\<forall>e \<in> set old. transactionId e \<noteq> tid"
  shows "txn_consistent (old @ buildExpenses tid rnd t)"
  unfolding txn_consistent_iff
proof (intro ballI)
  fix a b
  assume a: "a \<in> set (old @ buildExpenses tid rnd t)" and b: "b \<in> set (old @ buildExpenses tid rnd t)"
  show "agree a b"
  proof (cases "a \<in> set old")
    case aold: True
    show ?thesis
    proof (cases "b \<in> set old")
      case True
      with aold assms(1) show ?thesis by (simp add: txn_consistent_iff)
    next
      case False
      with b have "b \<in> set (buildExpenses tid rnd t)" by simp
      then have "transactionId b = tid" by (simp add: buildExpenses_fields)
      with aold assms(2) show ?thesis by (auto simp add: agree_def)
    qed
  next
    case anew: False
    with a have an: "a \<in> set (buildExpenses tid rnd t)" by simp
    show ?thesis
    proof (cases "b \<in> set old")
      case True
      from an have "transactionId a = tid" by (simp add: buildExpenses_fields)
      with True assms(2) show ?thesis by (auto simp add: agree_def)
    next
      case False
      with b have "b \<in> set (buildExpenses tid rnd t)" by simp
      with an show ?thesis by (simp add: agree_def buildExpenses_fields)
    qed
  qed
qed

lemma txn_consistent_map:
  assumes "\<And>e. transactionId (g e) = transactionId e \<and> vendor (g e) = vendor e
               \<and> date (g e) = date e \<and> notes (g e) = notes e"
    and "txn_consistent es"
  shows "txn_consistent (map g es)"
  unfolding txn_consistent_iff
proof (intro ballI)
  fix a b
  assume "a \<in> set (map g es)" and "b \<in> set (map g es)"
  then obtain a' b' where a: "a = g a'" "a' \<in> set es" and b: "b = g b'" "b' \<in> set es"
    by auto
  from a(2) b(2) assms(2) have "agree a' b'"
    by (simp add: txn_consistent_iff)
  then show "agree a b"
    unfolding agree_def a(1) b(1) using assms(1) [of a'] assms(1) [of b'] by metis
qed

lemma addTransaction_consistent:
  assumes "txn_consistent (expenses st)"
    and "\<forall>e \<in> set (expenses st). transactionId e \<noteq> Some (toString_int now)"
  shows "txn_consistent (expenses (addTransaction now rnd t st))"
proof -
  have new: "txn_consistent (expenses st @ buildExpenses (Some (toString_int now)) rnd t)"
    using assms by (rule txn_consistent_with_new)
  have "set (expenses (addTransaction now rnd t st))
      = set (expenses st @ buildExpenses (Some (toString_int now)) rnd t)"
    by (simp add: addTransaction_def Let_def set_sortExpenses Un_commute)
  from txn_consistent_cong [OF this] new show ?thesis by simp
qed

lemma updateTransaction_consistent:
  assumes "txn_consistent (expenses st)"
  shows "txn_consistent (expenses (updateTransaction tid rnd t st))"
proof -
  have "set (filter (\<lambda>e. transactionId e \<noteq> tid) (expenses st)) \<subseteq> set (expenses st)"
    by simp
  then have "txn_consistent (filter (\<lambda>e. transactionId e \<noteq> tid) (expenses st))"
    using assms by (rule txn_consistent_subset)
  then have new: "txn_consistent (filter (\<lambda>e. transactionId e \<noteq> tid) (expenses st) @ buildExpenses tid rnd t)"
    by (rule txn_consistent_with_new) simp
  have "set (expenses (updateTransaction tid rnd t st))
      = set (filter (\<lambda>e. transactionId e \<noteq> tid) (expenses st) @ buildExpenses tid rnd t)"
    by (simp add: updateTransaction_def Let_def set_sortExpenses)
  from txn_consistent_cong [OF this] new show ?thesis by simp
qed

lemma deleteTransaction_consistent:
  assumes "txn_consistent (expenses st)"
  shows "txn_consistent (expenses (deleteTransaction tid st))"
proof -
  have "set (expenses (deleteTransaction tid st)) \<subseteq> set (expenses st)"
    by (simp add: deleteTransaction_def)
  then show ?thesis using assms by (rule txn_consistent_subset)
qed

lemma recategorise_consistent:
  assumes "txn_consistent es"
  shows "txn_consistent (map (\<lambda>exp. if P exp then exp\<lparr> category := c \<rparr> else exp) es)"
proof (rule txn_consistent_map [OF _ assms])
  fix e
  show "transactionId (if P e then e\<lparr> category := c \<rparr> else e) = transactionId e \<and>
        vendor (if P e then e\<lparr> category := c \<rparr> else e) = vendor e \<and>
        date (if P e then e\<lparr> category := c \<rparr> else e) = date e \<and>
        notes (if P e then e\<lparr> category := c \<rparr> else e) = notes e"
    by simp
qed

lemma handleDelete_consistent:
  assumes "txn_consistent (expenses st)"
  shows "txn_consistent (expenses (handleDelete nm confirmed st))"
proof (cases confirmed)
  case True
  then have "expenses (handleDelete nm confirmed st) =
      map (\<lambda>exp. if category exp = nm then exp\<lparr> category := ''Other'' \<rparr> else exp) (expenses st)"
    by (simp add: handleDelete_def)
  with assms show ?thesis by (simp only: recategorise_consistent)
next
  case False
  with assms show ?thesis by (simp add: handleDelete_def)
qed

lemma handleSave_expenses_cases:
  "expenses (snd (handleSave isAdding editingCatName fname fcolor st)) = expenses st
   \<or> expenses (snd (handleSave isAdding editingCatName fname fcolor st)) =
       map (\<lambda>exp. if Some (category exp) = editingCatName then exp\<lparr> category := trim fname \<rparr> else exp)
           (expenses st)"
  by (simp add: handleSave_def Let_def split: option.splits)

lemma handleSave_consistent:
  assumes "txn_consistent (expenses st)"
  shows "txn_consistent (expenses (snd (handleSave isAdding editingCatName fname fcolor st)))"
proof -
  from handleSave_expenses_cases [of isAdding editingCatName fname fcolor st] show ?thesis
  proof
    assume "expenses (snd (handleSave isAdding editingCatName fname fcolor st)) = expenses st"
    with assms show ?thesis by simp
  next
    assume e: "expenses (snd (handleSave isAdding editingCatName fname fcolor st)) =
       map (\<lambda>exp. if Some (category exp) = editingCatName then exp\<lparr> category := trim fname \<rparr> else exp)
           (expenses st)"
    show ?thesis unfolding e by (rule recategorise_consistent [OF assms])
  qed
qed

lemma handleSubmit_consistent:
  assumes "txn_consistent (expenses st)"
    and "transactionToEdit = None \<longrightarrow> (\<forall>e \<in> set (expenses st). transactionId e \<noteq> Some (toString_int now))"
  shows "txn_consistent (expenses (snd (handleSubmit f transactionToEdit now rnd st)))"
proof (cases "isValid f")
  case False
  with assms(1) show ?thesis by (simp add: handleSubmit_def)
next
  case True
  show ?thesis
  proof (cases transactionToEdit)
    case None
    with assms(2) have "\<forall>e \<in> set (expenses st). transactionId e \<noteq> Some (toString_int now)" by simp
    with assms(1) have "txn_consistent (expenses (addTransaction now rnd (formTransaction f) st))"
      by (rule addTransaction_consistent)
    with True None show ?thesis by (simp add: handleSubmit_def)
  next
    case (Some es)
    show ?thesis
    proof (cases es)
      case Nil
      with True Some assms(1) show ?thesis by (simp add: handleSubmit_def)
    next
      case (Cons e0 rest)
      have "txn_consistent (expenses (updateTransaction (transactionId e0) rnd (formTransaction f) st))"
        using assms(1) by (rule updateTransaction_consistent)
      with True Some Cons show ?thesis by (simp add: handleSubmit_def)
    qed
  qed
qed

text \<open>
  C8, as amended. The splits built for a transaction all carry its transaction id and
  its vendor, date and notes, and their amounts are the amounts of the input splits,
  one by one. On a ledger whose transactions agree on vendor, date and notes, the
  agreement is kept by an edit, by a delete, by the rename and delete cascades of
  categories, and by a creation whose minted id (the decimal text of the creation time)
  is not yet the transaction id of a split of the ledger.
\<close>

theorem transaction_consistency:
  "(\<forall>e \<in> set (buildExpenses tid rnd t).
       transactionId e = tid \<and> vendor e = t_vendor t \<and> date e = t_date t \<and> notes e = t_notes t)
   \<and> map amount (buildExpenses tid rnd t) = map s_amount (t_splits t)
   \<and> (txn_consistent (expenses st) \<longrightarrow>
        ((\<forall>e \<in> set (expenses st). transactionId e \<noteq> Some (toString_int now)) \<longrightarrow>
            txn_consistent (expenses (addTransaction now rnd t st)))
        \<and> txn_consistent (expenses (updateTransaction tid rnd t st))
        \<and> txn_consistent (expenses (deleteTransaction tid' st))
        \<and> txn_consistent (expenses (snd (handleSave isAdding editingCatName fname fcolor st)))
        \<and> txn_consistent (expenses (handleDelete nm confirmed st))
        \<and> ((transactionToEdit = None \<longrightarrow>
               (\<forall>e \<in> set (expenses st). transactionId e \<noteq> Some (toString_int now))) \<longrightarrow>
            txn_consistent (expenses (snd (handleSubmit f transactionToEdit now rnd st)))))"
proof (intro conjI impI)
  show "\<forall>e \<in> set (buildExpenses tid rnd t).
       transactionId e = tid \<and> vendor e = t_vendor t \<and> date e = t_date t \<and> notes e = t_notes t"
    using buildExpenses_fields by blast
  show "map amount (buildExpenses tid rnd t) = map s_amount (t_splits t)"
    by (rule buildExpenses_amounts)
next
  assume "txn_consistent (expenses st)"
    and "\<forall>e \<in> set (expenses st). transactionId e \<noteq> Some (toString_int now)"
  then show "txn_consistent (expenses (addTransaction now rnd t st))"
    by (rule addTransaction_consistent)
next
  assume "txn_consistent (expenses st)"
  then show "txn_consistent (expenses (updateTransaction tid rnd t st))"
    by (rule updateTransaction_consistent)
next
  assume "txn_consistent (expenses st)"
  then show "txn_consistent (expenses (deleteTransaction tid' st))"
    by (rule deleteTransaction_consistent)
next
  assume "txn_consistent (expenses st)"
  then show "txn_consistent (expenses (snd (handleSave isAdding editingCatName fname fcolor st)))"
    by (rule handleSave_consistent)
next
  assume "txn_consistent (expenses st)"
  then show "txn_consistent (expenses (handleDelete nm confirmed st))"
    by (rule handleDelete_consistent)
next
  assume "txn_consistent (expenses st)"
    and "transactionToEdit = None \<longrightarrow>
               (\<forall>e \<in> set (expenses st). transactionId e \<noteq> Some (toString_int now))"
  then show "txn_consistent (expenses (snd (handleSubmit f transactionToEdit now rnd st)))"
    by (rule handleSubmit_consistent)
qed

theorem transaction_consistency_witness:
  "txn_consistent (expenses st_ex)
   \<and> txn_consistent (expenses (snd (handleSubmit form_ok None 1700000000000 rnd_ex st_ex)))
   \<and> txn_consistent (expenses (snd (handleSubmit form_edit (Some txn100) 1700000000000 rnd_ex st_ex)))
   \<and> map amount (buildExpenses (Some ''100'') rnd_ex (formTransaction form_ok)) = [60, 40]"
proof -
  have c: "txn_consistent (expenses st_ex)" by code_simp
  have "list_all (\<lambda>e. transactionId e \<noteq> Some (toString_int 1700000000000)) (expenses st_ex)"
    by code_simp
  then have fresh: "\<forall>e \<in> set (expenses st_ex). transactionId e \<noteq> Some (toString_int 1700000000000)"
    by (simp only: list_all_iff)
  have am: "map s_amount (t_splits (formTransaction form_ok)) = [60, 40]" by code_simp
  note r1 = transaction_consistency [of "Some ''100''" rnd_ex "formTransaction form_ok" st_ex 1700000000000
      "''100''" False None "[]" "[]" "[]" False None form_ok]
  note r2 = transaction_consistency [of "Some ''100''" rnd_ex "formTransaction form_ok" st_ex 1700000000000
      "''100''" False None "[]" "[]" "[]" False "Some txn100" form_edit]
  from r1 c fresh have a: "txn_consistent (expenses (snd (handleSubmit form_ok None 1700000000000 rnd_ex st_ex)))"
    by blast
  from r2 c have b: "txn_consistent (expenses (snd (handleSubmit form_edit (Some txn100) 1700000000000 rnd_ex st_ex)))"
    by blast
  from r1 am have d: "map amount (buildExpenses (Some ''100'') rnd_ex (formTransaction form_ok)) = [60, 40]"
    by (simp only:)
  from a b c d show ?thesis by (simp only: simp_thms)
qed

text \<open>
  A creation at a time whose decimal text is already a transaction id of the ledger
  puts the new splits into that transaction, with another vendor and date.
\<close>

theorem transaction_id_clash_counterexample:
  "txn_consistent (expenses st_clash)
   \<and> isValid form_edit
   \<and> \<not> txn_consistent (expenses (snd (handleSubmit form_edit None 1700000000000 rnd_ex st_clash)))"
  by code_simp

section \<open>The order of the ledger\<close>

text \<open>
  Creating and editing sort the whole ledger, deleting filters it: where every date
  and transaction id can be read, the ledger is in order after a creation or an edit,
  and a deletion keeps a ledger in order.
\<close>

lemma addTransaction_ordered:
  assumes "\<forall>e \<in> set (expenses (addTransaction now rnd t st)). readable e"
  shows "ledger_ordered (expenses (addTransaction now rnd t st))"
proof -
  let ?xs = "buildExpenses (Some (toString_int now)) rnd t @ expenses st"
  have ex: "expenses (addTransaction now rnd t st) = sortExpenses ?xs"
    by (simp add: addTransaction_def Let_def)
  with assms have "\<forall>e \<in> set ?xs. readable e"
    by (simp only: set_sortExpenses)
  then have "ledger_ordered (sortExpenses ?xs)" by (rule ledger_ordered_sortExpenses)
  with ex show ?thesis by simp
qed

lemma updateTransaction_ordered:
  assumes "\<forall>e \<in> set (expenses (updateTransaction tid rnd t st)). readable e"
  shows "ledger_ordered (expenses (updateTransaction tid rnd t st))"
proof -
  let ?xs = "filter (\<lambda>e. transactionId e \<noteq> tid) (expenses st) @ buildExpenses tid rnd t"
  have ex: "expenses (updateTransaction tid rnd t st) = sortExpenses ?xs"
    by (simp add: updateTransaction_def Let_def)
  with assms have "\<forall>e \<in> set ?xs. readable e"
    by (simp only: set_sortExpenses)
  then have "ledger_ordered (sortExpenses ?xs)" by (rule ledger_ordered_sortExpenses)
  with ex show ?thesis by simp
qed

lemma deleteTransaction_ordered:
  assumes "ledger_ordered (expenses st)"
  shows "ledger_ordered (expenses (deleteTransaction tid st))"
  using assms by (simp add: deleteTransaction_def ledger_ordered_filter)

text \<open>
  C5 fails at the restore. \<open>handleFileSelect\<close> installs the expenses of the document
  as they come, upgraded but not sorted: a legacy document with the splits \<open>100\<close> and
  \<open>200\<close> of one day, in that order, leaves the ledger out of order, while the start-up
  migration sorts the same splits.
\<close>

theorem restore_leaves_unsorted:
  "fst (handleFileSelect True (Some doc_legacy) st_ex) = None
   \<and> map eid (expenses (snd (handleFileSelect True (Some doc_legacy) st_ex))) = [''100'', ''200'', ''300-a'']
   \<and> map transactionId (expenses (snd (handleFileSelect True (Some doc_legacy) st_ex)))
        = [Some ''100'', Some ''200'', Some ''300'']
   \<and> \<not> ledger_ordered (expenses (snd (handleFileSelect True (Some doc_legacy) st_ex)))
   \<and> map eid (expenses (initExpenses (st_ex\<lparr> expenses := legacy_ledger \<rparr>))) = [''200'', ''100'', ''300-a'']
   \<and> ledger_ordered (expenses (initExpenses (st_ex\<lparr> expenses := legacy_ledger \<rparr>)))"
  by code_simp

section \<open>Today's spend\<close>

text \<open>
  The loop adds every split dated at or after the midnight that begins today; it
  agrees with the specification when no split is dated after today.
\<close>

lemma div_eq_iff_between:
  fixes t d q :: int
  assumes "0 < d"
  shows "t div d = q \<longleftrightarrow> q * d \<le> t \<and> t < q * d + d"
proof
  assume q: "t div d = q"
  have "t = t div d * d + t mod d" by (rule div_mult_mod_eq [symmetric])
  with q have t: "t = q * d + t mod d" by simp
  have "0 \<le> t mod d" "t mod d < d" using assms by simp_all
  with t show "q * d \<le> t \<and> t < q * d + d" by linarith
next
  assume b: "q * d \<le> t \<and> t < q * d + d"
  have "t = d * q + (t - q * d)" by (simp add: mult.commute)
  moreover from b have "0 \<le> t - q * d" "t - q * d < d" by simp_all
  ultimately show "t div d = q" by (rule int_div_pos_eq)
qed

lemma same_day_iff:
  "t div msPerDay = now div msPerDay \<longleftrightarrow>
     startOfTodayUTC now \<le> t \<and> t < startOfTodayUTC now + msPerDay"
proof -
  have "(0::int) < msPerDay" by (simp add: msPerDay_def)
  from div_eq_iff_between [OF this, of t "now div msPerDay"] show ?thesis
    by (simp only: startOfTodayUTC_def)
qed

lemma todaySpend_as_sum:
  "todaySpend es now =
     sum_list (map amount (filter (\<lambda>e. case Date_parse (date e) of None \<Rightarrow> False
                                        | Some t \<Rightarrow> startOfTodayUTC now \<le> t) es))"
proof -
  have "foldl (\<lambda>acc expense.
              (case Date_parse (date expense) of
                 None \<Rightarrow> acc
               | Some expenseTimeUTC \<Rightarrow>
                   if expenseTimeUTC \<ge> startOfTodayUTC now then acc + amount expense else acc)) a es
       = a + sum_list (map amount (filter (\<lambda>e. case Date_parse (date e) of None \<Rightarrow> False
                                        | Some t \<Rightarrow> startOfTodayUTC now \<le> t) es))" for a
    by (induction es arbitrary: a) (simp_all split: option.splits)
  then show ?thesis by (simp add: todaySpend_def)
qed

lemma todaySpend_without_later_days:
  assumes "\<forall>e \<in> set es. \<forall>t. Date_parse (date e) = Some t \<longrightarrow> t < startOfTodayUTC now + msPerDay"
  shows "todaySpend es now = todaySpend_spec es now"
proof -
  have "(case Date_parse (date e) of None \<Rightarrow> False | Some t \<Rightarrow> startOfTodayUTC now \<le> t)
        = sameUTCDay now e" if "e \<in> set es" for e
  proof (cases "Date_parse (date e)")
    case None
    then show ?thesis by (simp add: sameUTCDay_def)
  next
    case (Some t)
    with assms that have "t < startOfTodayUTC now + msPerDay" by blast
    with Some show ?thesis by (simp add: sameUTCDay_def same_day_iff)
  qed
  then have "filter (\<lambda>e. case Date_parse (date e) of None \<Rightarrow> False | Some t \<Rightarrow> startOfTodayUTC now \<le> t) es
        = filter (sameUTCDay now) es"
    by (rule filter_cong [OF refl])
  then show ?thesis by (simp only: todaySpend_as_sum todaySpend_spec_def)
qed

text \<open>
  C7 fails on a split dated after today. At noon of 2024-02-25 (UTC), a ledger with
  splits of 30 on 2024-02-26, 12 on 2024-02-25 and 7 on 2024-02-24 has a today's spend
  of 42 in the code; the splits of that calendar day sum to 12.
\<close>

theorem todaySpend_counts_later_days:
  "Date_parse ''2024-02-25'' = Some 1708819200000
   \<and> startOfTodayUTC 1708862400000 = 1708819200000
   \<and> todaySpend ledger_today 1708862400000 = 42
   \<and> todaySpend_spec ledger_today 1708862400000 = 12"
  by code_simp

end
